theory Spec2Isabelle
  imports Main "HOL-Library.Word"
begin

section \<open>Go strings: bytes, UTF-8 and the functions of package strings the handlers call\<close>

text \<open>
  A Go string is a sequence of bytes and \<^verbatim>\<open>len\<close> counts bytes; \<^typ>\<open>string\<close> (a list of
  8-bit \<^typ>\<open>char\<close>) is the same thing.  Byte values and runes are read as \<^typ>\<open>int\<close>.
\<close>

definition byte :: "char \<Rightarrow> int" where
  "byte c = of_char c"

definition RuneSelf :: int where
  "RuneSelf = 0x80"

definition RuneError :: int where
  "RuneError = 0xFFFD"

definition isASCII :: "string \<Rightarrow> bool" where
  "isASCII s = list_all (\<lambda>c. byte c < RuneSelf) s"

text \<open>
  \<^verbatim>\<open>utf8.DecodeRuneInString\<close>: the first rune of a string and its width in bytes.  A lead
  byte fixes the size of the sequence and the range accepted for the second byte; every
  malformed or truncated sequence decodes to \<^verbatim>\<open>RuneError\<close> of width 1.
\<close>

definition seqSize :: "int \<Rightarrow> nat" where
  "seqSize s0 = (if s0 < 0xE0 then 2 else if s0 < 0xF0 then 3 else 4)"

definition acceptLo :: "int \<Rightarrow> int" where
  "acceptLo s0 = (if s0 = 0xE0 then 0xA0 else if s0 = 0xF0 then 0x90 else 0x80)"

definition acceptHi :: "int \<Rightarrow> int" where
  "acceptHi s0 = (if s0 = 0xED then 0x9F else if s0 = 0xF4 then 0x8F else 0xBF)"

definition DecodeRuneInString :: "string \<Rightarrow> int \<times> nat" where
  "DecodeRuneInString s =
     (if s = [] then (RuneError, 0)
      else let s0 = byte (s ! 0) in
        if s0 < RuneSelf then (s0, 1)
        else if s0 < 0xC2 \<or> 0xF4 < s0 then (RuneError, 1)
        else if length s < seqSize s0 then (RuneError, 1)
        else let s1 = byte (s ! 1) in
          if s1 < acceptLo s0 \<or> acceptHi s0 < s1 then (RuneError, 1)
          else if seqSize s0 \<le> 2 then ((s0 mod 32) * 64 + s1 mod 64, 2)
          else let s2 = byte (s ! 2) in
            if s2 < 0x80 \<or> 0xBF < s2 then (RuneError, 1)
            else if seqSize s0 \<le> 3
              then ((s0 mod 16) * 4096 + (s1 mod 64) * 64 + s2 mod 64, 3)
            else let s3 = byte (s ! 3) in
              if s3 < 0x80 \<or> 0xBF < s3 then (RuneError, 1)
              else ((s0 mod 8) * 262144 + (s1 mod 64) * 4096 + (s2 mod 64) * 64
                      + s3 mod 64, 4))"

lemma DecodeRuneInString_width:
  "s \<noteq> [] \<Longrightarrow> 1 \<le> snd (DecodeRuneInString s)"
  by (simp add: DecodeRuneInString_def Let_def)

text \<open>The runes a \<^verbatim>\<open>for _, c := range s\<close> loop yields, in order.\<close>

function runes :: "string \<Rightarrow> int list" where
  "runes s =
     (if s = [] then []
      else fst (DecodeRuneInString s) # runes (drop (snd (DecodeRuneInString s)) s))"
  by pat_completeness auto
termination
proof (relation "measure length")
  show "wf (measure length)" by simp
next
  fix s :: string
  assume "s \<noteq> []"
  then have "1 \<le> snd (DecodeRuneInString s)" by (rule DecodeRuneInString_width)
  with \<open>s \<noteq> []\<close> show "(drop (snd (DecodeRuneInString s)) s, s) \<in> measure length"
    by (cases s) auto
qed

declare runes.simps [simp del]

text \<open>
  \<^verbatim>\<open>utf8.AppendRune\<close>: the UTF-8 encoding of a rune; surrogates and values out of range
  are encoded as \<^verbatim>\<open>RuneError\<close>.
\<close>

definition encode3 :: "int \<Rightarrow> string" where
  "encode3 r = [char_of (0xE0 + r div 4096), char_of (0x80 + (r div 64) mod 64),
                char_of (0x80 + r mod 64)]"

definition encodeRune :: "int \<Rightarrow> string" where
  "encodeRune r =
     (if 0 \<le> r \<and> r \<le> 0x7F then [char_of r]
      else if 0 \<le> r \<and> r \<le> 0x7FF then [char_of (0xC0 + r div 64), char_of (0x80 + r mod 64)]
      else if r < 0 \<or> 0x10FFFF < r \<or> (0xD800 \<le> r \<and> r \<le> 0xDFFF) then encode3 RuneError
      else if r \<le> 0xFFFF then encode3 r
      else [char_of (0xF0 + r div 262144), char_of (0x80 + (r div 4096) mod 64),
            char_of (0x80 + (r div 64) mod 64), char_of (0x80 + r mod 64)])"

text \<open>
  \<^verbatim>\<open>strings.Map\<close>: every rune of the string is mapped and re-encoded; a negative result
  drops the rune.
\<close>

definition Map :: "(int \<Rightarrow> int) \<Rightarrow> string \<Rightarrow> string" where
  "Map mapping s =
     concat (map (\<lambda>c. if 0 \<le> mapping c then encodeRune (mapping c) else []) (runes s))"

text \<open>
  \<^verbatim>\<open>unicode.ToLower\<close>.  Below \<^verbatim>\<open>MaxASCII\<close> the function is arithmetic on the letter; above,
  it reads the case table of the Unicode database, which is data of the Go distribution:
  the table is the parameter \<open>tbl\<close>, and every statement below holds for every table.
\<close>

definition unicode_ToLower :: "(int \<Rightarrow> int) \<Rightarrow> int \<Rightarrow> int" where
  "unicode_ToLower tbl r =
     (if r \<le> 0x7F then (if 0x41 \<le> r \<and> r \<le> 0x5A then r + 0x20 else r) else tbl r)"

text \<open>
  \<^verbatim>\<open>strings.ToLower\<close>: a string of ASCII bytes only has its upper-case letters shifted
  byte by byte; any other string goes through \<^verbatim>\<open>Map(unicode.ToLower, s)\<close>.
\<close>

definition lowerByte :: "char \<Rightarrow> char" where
  "lowerByte c = (if 0x41 \<le> byte c \<and> byte c \<le> 0x5A then char_of (byte c + 0x20) else c)"

definition ToLower :: "(int \<Rightarrow> int) \<Rightarrow> string \<Rightarrow> string" where
  "ToLower tbl s = (if isASCII s then map lowerByte s else Map (unicode_ToLower tbl) s)"

text \<open>
  \<^verbatim>\<open>strings.Split(s, sep)\<close> for a separator of one byte, the only kind the handlers use:
  the pieces between the separators, empty pieces included, and one piece when there is
  no separator.
\<close>

fun Split :: "string \<Rightarrow> char \<Rightarrow> string list" where
  "Split [] sep = [[]]"
| "Split (c # cs) sep =
     (if c = sep then [] # Split cs sep
      else (case Split cs sep of [] \<Rightarrow> [[c]] | w # ws \<Rightarrow> (c # w) # ws))"

text \<open>\<^verbatim>\<open>strings.Join(elems, sep)\<close>.\<close>

fun Join :: "string list \<Rightarrow> string \<Rightarrow> string" where
  "Join [] sep = []"
| "Join [w] sep = w"
| "Join (w # v # ws) sep = w @ sep @ Join (v # ws) sep"

section \<open>The cleaning transform of the chirp handlers\<close>

definition profaneWords :: "string list" where
  "profaneWords = [''kerfuffle'', ''sharbert'', ''fornax'']"

text \<open>
  The inner loop \<^verbatim>\<open>for _, profane := range profaneWords\<close>: true when the loop leaves
  through \<^verbatim>\<open>break\<close>, that is when it has overwritten the word.
\<close>

fun matchesProfane :: "string \<Rightarrow> string list \<Rightarrow> bool" where
  "matchesProfane wordLower [] = False"
| "matchesProfane wordLower (profane # rest) =
     (if wordLower = profane then True else matchesProfane wordLower rest)"

text \<open>
  The outer loop \<^verbatim>\<open>for i, word := range words\<close> from index \<open>i\<close> on; it overwrites
  \<^verbatim>\<open>words[i]\<close> in place.
\<close>

function cleanWords :: "(int \<Rightarrow> int) \<Rightarrow> nat \<Rightarrow> string list \<Rightarrow> string list" where
  "cleanWords tbl i words =
     (if i < length words then
        (let word = words ! i;
             wordLower = ToLower tbl word
         in cleanWords tbl (Suc i)
              (if matchesProfane wordLower profaneWords then words[i := ''****''] else words))
      else words)"
  by pat_completeness auto
termination
  by (relation "measure (\<lambda>(tbl, i, words). length words - i)") auto

declare cleanWords.simps [simp del]

text \<open>
  Lines "Clean the chirp text" of \<^verbatim>\<open>validateChirpHandler\<close> and of
  \<^verbatim>\<open>createChirpHandler\<close>, which are the same text: split, loop, join.
\<close>

definition cleanChirp :: "(int \<Rightarrow> int) \<Rightarrow> string \<Rightarrow> string" where
  "cleanChirp tbl body = Join (cleanWords tbl 0 (Split body CHR '' '')) '' ''"

text \<open>
  The transform the specification describes in words: split on single spaces, lower-case
  each token, replace the tokens that are denylist words by the mask, rejoin.  Read
  literally, the tokens that are kept come out lower-cased.
\<close>

definition specClean :: "(int \<Rightarrow> int) \<Rightarrow> string \<Rightarrow> string" where
  "specClean tbl body =
     Join (map (\<lambda>token. if ToLower tbl token \<in> set profaneWords then ''****''
                         else ToLower tbl token)
            (Split body CHR '' '')) '' ''"

text \<open>
  The same reference with the lower-cased token used for the comparison only: a token
  that is not masked is kept as it was written.
\<close>

definition maskWord :: "(int \<Rightarrow> int) \<Rightarrow> string \<Rightarrow> string" where
  "maskWord tbl token = (if ToLower tbl token \<in> set profaneWords then ''****'' else token)"

definition cleanReference :: "(int \<Rightarrow> int) \<Rightarrow> string \<Rightarrow> string" where
  "cleanReference tbl body = Join (map (maskWord tbl) (Split body CHR '' '')) '' ''"

section \<open>Requests, responses, the database and the server state\<close>

type_synonym uuid = string  \<comment> \<open>a \<^verbatim>\<open>uuid.UUID\<close>, identified with the text \<^verbatim>\<open>String()\<close> gives\<close>
type_synonym time = nat     \<comment> \<open>a \<^verbatim>\<open>time.Time\<close>; the zero value is 0\<close>

record chirpRequest =
  cr_Body :: string

record chirpResponse =
  resp_ID :: string
  resp_CreatedAt :: time
  resp_UpdatedAt :: time
  resp_Body :: string
  resp_UserID :: string

record userRequest =
  ur_Email :: string

record userResponse =
  uresp_ID :: string
  uresp_CreatedAt :: time
  uresp_UpdatedAt :: time
  uresp_Email :: string

record chirpCreateRequest =
  ccr_Body :: string
  ccr_UserID :: uuid

text \<open>What a handler has written: the status, the Content-Type it set, the body.\<close>

datatype payload =
    NoBody
  | ErrorJSON string            \<comment> \<open>\<^verbatim>\<open>errorResponse{Error: msg}\<close> encoded as JSON\<close>
  | ChirpJSON chirpResponse
  | UserJSON userResponse

record response =
  status :: nat
  contentType :: "string option"
  payload :: payload

fun isErrorJSON :: "payload \<Rightarrow> bool" where
  "isErrorJSON (ErrorJSON msg) = True"
| "isErrorJSON other = False"

text \<open>
  A request as the handlers read it: the method, and what \<^verbatim>\<open>io.ReadAll(r.Body)\<close> returns
  (\<open>None\<close> when it returns an error).
\<close>

record request =
  Method :: string
  readAll :: "string option"

abbreviation MethodPost :: string where "MethodPost \<equiv> ''POST''"
abbreviation StatusOK :: nat where "StatusOK \<equiv> 200"
abbreviation StatusCreated :: nat where "StatusCreated \<equiv> 201"
abbreviation StatusBadRequest :: nat where "StatusBadRequest \<equiv> 400"
abbreviation StatusForbidden :: nat where "StatusForbidden \<equiv> 403"
abbreviation StatusMethodNotAllowed :: nat where "StatusMethodNotAllowed \<equiv> 405"
abbreviation StatusInternalServerError :: nat where "StatusInternalServerError \<equiv> 500"

text \<open>\<^verbatim>\<open>w.WriteHeader(code)\<close> followed by the JSON encoding of an \<^verbatim>\<open>errorResponse\<close>.\<close>

definition writeError :: "nat \<Rightarrow> string \<Rightarrow> response" where
  "writeError code msg = \<lparr>status = code, contentType = None, payload = ErrorJSON msg\<rparr>"

text \<open>\<^verbatim>\<open>w.WriteHeader(code)\<close> and nothing else.\<close>

definition writeHeaderOnly :: "nat \<Rightarrow> response" where
  "writeHeaderOnly code = \<lparr>status = code, contentType = None, payload = NoBody\<rparr>"

subsection \<open>The database\<close>

record User =
  user_ID :: uuid
  user_CreatedAt :: time
  user_UpdatedAt :: time
  user_Email :: string

record Chirp =
  chirp_ID :: uuid
  chirp_CreatedAt :: time
  chirp_UpdatedAt :: time
  chirp_Body :: string
  chirp_UserID :: uuid

record database =
  users :: "User list"
  chirps :: "Chirp list"

record CreateUserParams =
  cup_ID :: uuid
  cup_CreatedAt :: time
  cup_UpdatedAt :: time
  cup_Email :: string

record CreateChirpParams =
  ccp_ID :: uuid
  ccp_CreatedAt :: time
  ccp_UpdatedAt :: time
  ccp_Body :: string
  ccp_UserID :: uuid

text \<open>
  The queries of \<^verbatim>\<open>users.sql\<close>.  Whether the database server executes a statement or
  returns an error (a lost connection, a violated constraint of the schema) is decided
  outside the program: it is the argument \<open>ok\<close>.  A statement that returns an error
  leaves the tables as they were.

  \<^verbatim>\<open>CreateUser\<close>:
  \<^verbatim>\<open>INSERT INTO users (id, created_at, updated_at, email) VALUES ($1, $2, $2, $3) RETURNING *\<close>;
  both timestamps of the row are the second placeholder.
\<close>

definition CreateUser :: "bool \<Rightarrow> CreateUserParams \<Rightarrow> database \<Rightarrow> (User \<times> database) option" where
  "CreateUser ok arg d =
     (if ok then
        (let row = \<lparr>user_ID = cup_ID arg, user_CreatedAt = cup_CreatedAt arg,
                    user_UpdatedAt = cup_CreatedAt arg, user_Email = cup_Email arg\<rparr>
         in Some (row, d\<lparr>users := users d @ [row]\<rparr>))
      else None)"

text \<open>\<^verbatim>\<open>DeleteAllUsers\<close>: \<^verbatim>\<open>DELETE FROM users\<close>.\<close>

definition DeleteAllUsers :: "bool \<Rightarrow> database \<Rightarrow> database option" where
  "DeleteAllUsers ok d = (if ok then Some (d\<lparr>users := []\<rparr>) else None)"

text \<open>
  Modelled from the spec: the query \<^verbatim>\<open>CreateChirp\<close> of the generated package
  \<^verbatim>\<open>internal/database\<close>, whose SQL is not among the sources.  The specification lists
  it with create-user as an operation of the persistence adapter that stores a chirp
  (identifier, the two timestamps, body, owning user) and returns it.
\<close>

definition CreateChirp :: "bool \<Rightarrow> CreateChirpParams \<Rightarrow> database \<Rightarrow> (Chirp \<times> database) option" where
  "CreateChirp ok arg d =
     (if ok then
        (let row = \<lparr>chirp_ID = ccp_ID arg, chirp_CreatedAt = ccp_CreatedAt arg,
                    chirp_UpdatedAt = ccp_UpdatedAt arg, chirp_Body = ccp_Body arg,
                    chirp_UserID = ccp_UserID arg\<rparr>
         in Some (row, d\<lparr>chirps := chirps d @ [row]\<rparr>))
      else None)"

subsection \<open>The server state\<close>

text \<open>
  \<^verbatim>\<open>apiConfig\<close>: the hit counter is an \<^verbatim>\<open>atomic.Int32\<close>, a 32-bit word that wraps; the
  field \<open>db\<close> stands for the database the \<^verbatim>\<open>*database.Queries\<close> talks to.
\<close>

record apiConfig =
  fileserverHits :: "32 word"
  db :: database
  platform :: string

section \<open>The handlers\<close>

text \<open>
  The handlers of the program that has the database and the platform setting.
  \<^verbatim>\<open>json.Unmarshal\<close> is the parameter \<open>unmarshal\<close> (\<open>None\<close> when it returns an error),
  \<^verbatim>\<open>uuid.New()\<close> and \<^verbatim>\<open>time.Now().UTC()\<close> are the arguments \<open>newID\<close> and \<open>now\<close>, and
  \<open>ok\<close> says whether the database call of the handler succeeds.
\<close>

definition validateChirpHandler ::
  "(int \<Rightarrow> int) \<Rightarrow> (string \<Rightarrow> chirpRequest option) \<Rightarrow> request \<Rightarrow> response" where
  "validateChirpHandler tbl unmarshal r =
     (if Method r \<noteq> MethodPost then writeHeaderOnly StatusMethodNotAllowed
      else case readAll r of
        None \<Rightarrow> writeError StatusInternalServerError ''Failed to read request''
      | Some body \<Rightarrow>
         (case unmarshal body of
            None \<Rightarrow> writeError StatusBadRequest ''Invalid JSON''
          | Some chirp \<Rightarrow>
              if length (cr_Body chirp) > 140
              then writeError StatusBadRequest ''Chirp is too long''
              else
                (let cleanedChirp = cleanChirp tbl (cr_Body chirp)
                 in \<lparr>status = StatusOK, contentType = Some ''application/json'',
                      payload = ChirpJSON \<lparr>resp_ID = '''', resp_CreatedAt = 0,
                        resp_UpdatedAt = 0, resp_Body = cleanedChirp, resp_UserID = ''''\<rparr>\<rparr>)))"

definition createUserHandler ::
  "(string \<Rightarrow> userRequest option) \<Rightarrow> bool \<Rightarrow> uuid \<Rightarrow> time \<Rightarrow> apiConfig \<Rightarrow> request
     \<Rightarrow> response \<times> apiConfig" where
  "createUserHandler unmarshal ok newID now cfg r =
     (if Method r \<noteq> MethodPost then (writeHeaderOnly StatusMethodNotAllowed, cfg)
      else case readAll r of
        None \<Rightarrow> (writeError StatusInternalServerError ''Failed to read request'', cfg)
      | Some body \<Rightarrow>
         (case unmarshal body of
            None \<Rightarrow> (writeError StatusBadRequest ''Invalid JSON'', cfg)
          | Some req \<Rightarrow>
             (case CreateUser ok \<lparr>cup_ID = newID, cup_CreatedAt = now, cup_UpdatedAt = now,
                                   cup_Email = ur_Email req\<rparr> (db cfg) of
                None \<Rightarrow> (writeError StatusInternalServerError ''Failed to create user'', cfg)
              | Some (user, d) \<Rightarrow>
                  (\<lparr>status = StatusCreated, contentType = Some ''application/json'',
                    payload = UserJSON \<lparr>uresp_ID = user_ID user,
                      uresp_CreatedAt = user_CreatedAt user,
                      uresp_UpdatedAt = user_UpdatedAt user,
                      uresp_Email = user_Email user\<rparr>\<rparr>,
                   cfg\<lparr>db := d\<rparr>))))"

definition createChirpHandler ::
  "(int \<Rightarrow> int) \<Rightarrow> (string \<Rightarrow> chirpCreateRequest option) \<Rightarrow> bool \<Rightarrow> uuid \<Rightarrow> time
     \<Rightarrow> apiConfig \<Rightarrow> request \<Rightarrow> response \<times> apiConfig" where
  "createChirpHandler tbl unmarshal ok newID now cfg r =
     (if Method r \<noteq> MethodPost then (writeHeaderOnly StatusMethodNotAllowed, cfg)
      else case readAll r of
        None \<Rightarrow> (writeError StatusInternalServerError ''Failed to read request'', cfg)
      | Some body \<Rightarrow>
         (case unmarshal body of
            None \<Rightarrow> (writeError StatusBadRequest ''Invalid JSON'', cfg)
          | Some req \<Rightarrow>
              if length (ccr_Body req) > 140
              then (writeError StatusBadRequest ''Chirp is too long'', cfg)
              else
                (let cleanedChirp = cleanChirp tbl (ccr_Body req)
                 in case CreateChirp ok \<lparr>ccp_ID = newID, ccp_CreatedAt = now,
                           ccp_UpdatedAt = now, ccp_Body = cleanedChirp,
                           ccp_UserID = ccr_UserID req\<rparr> (db cfg) of
                      None \<Rightarrow>
                        (writeError StatusInternalServerError ''Failed to create chirp'', cfg)
                    | Some (chirp, d) \<Rightarrow>
                        (\<lparr>status = StatusCreated, contentType = Some ''application/json'',
                          payload = ChirpJSON \<lparr>resp_ID = chirp_ID chirp,
                            resp_CreatedAt = chirp_CreatedAt chirp,
                            resp_UpdatedAt = chirp_UpdatedAt chirp,
                            resp_Body = chirp_Body chirp,
                            resp_UserID = chirp_UserID chirp\<rparr>\<rparr>,
                         cfg\<lparr>db := d\<rparr>))))"

text \<open>
  \<^verbatim>\<open>resetHandler\<close>: the counter is stored to zero before the delete is attempted.
\<close>

definition resetHandler :: "bool \<Rightarrow> apiConfig \<Rightarrow> request \<Rightarrow> response \<times> apiConfig" where
  "resetHandler ok cfg r =
     (if Method r \<noteq> MethodPost then (writeHeaderOnly StatusMethodNotAllowed, cfg)
      else if platform cfg \<noteq> ''dev''
        then (writeError StatusForbidden ''Reset endpoint only available in dev mode'', cfg)
      else
        (let cfg1 = cfg\<lparr>fileserverHits := 0\<rparr>
         in case DeleteAllUsers ok (db cfg1) of
              None \<Rightarrow> (writeError StatusInternalServerError ''Failed to delete users'', cfg1)
            | Some d \<Rightarrow> (writeHeaderOnly StatusOK, cfg1\<lparr>db := d\<rparr>)))"

text \<open>
  \<^verbatim>\<open>middlewareMetricsInc\<close>: \<^verbatim>\<open>cfg.fileserverHits.Add(1)\<close>, then the wrapped handler,
  which is the file server and has no access to \<^verbatim>\<open>cfg\<close>.  The method \<^verbatim>\<open>Add\<close> of
  \<^verbatim>\<open>atomic.Int32\<close> is one indivisible read-modify-write that wraps around, which is
  \<open>+ 1\<close> on a 32-bit word.  The file \<^verbatim>\<open>main.go\<close> has the same middleware, word for word,
  over an \<^verbatim>\<open>apiConfig\<close> that holds the counter only.
\<close>

definition middlewareMetricsInc ::
  "(request \<Rightarrow> response) \<Rightarrow> apiConfig \<Rightarrow> request \<Rightarrow> response \<times> apiConfig" where
  "middlewareMetricsInc next cfg r = (next r, cfg\<lparr>fileserverHits := fileserverHits cfg + 1\<rparr>)"

text \<open>
  Requests to the file server that are in flight together.  Each performs its atomic
  increment at some moment, and the file server does not touch the counter; which of the
  pending requests comes next is arbitrary, so the runs of this relation from a list of
  pending requests to the empty list are the interleavings of their increments.
\<close>

inductive serve ::
  "(request \<Rightarrow> response) \<Rightarrow> apiConfig \<times> request list \<Rightarrow> apiConfig \<times> request list \<Rightarrow> bool"
  for "next" where
  step: "i < length pending \<Longrightarrow>
     serve next (cfg, pending)
       (snd (middlewareMetricsInc next cfg (pending ! i)), take i pending @ drop (Suc i) pending)"

section \<open>Error classes and sample inputs\<close>

text \<open>
  The two classes of error responses the specification names: a client error is a 4xx
  status with a JSON error object as body, a server error is status 500 with a JSON error
  object as body.
\<close>

definition clientErrorClass :: "response \<Rightarrow> bool" where
  "clientErrorClass resp = (400 \<le> status resp \<and> status resp < 500 \<and> isErrorJSON (payload resp))"

definition serverErrorClass :: "response \<Rightarrow> bool" where
  "serverErrorClass resp = (status resp = 500 \<and> isErrorJSON (payload resp))"

text \<open>
  Concrete inputs for the instances below.  The sample decoders stand for
  \<^verbatim>\<open>json.Unmarshal\<close>: they reject the text \<^verbatim>\<open>{\<close> and take any other text as the
  value of the field.
\<close>

definition sampleUnmarshalChirp :: "string \<Rightarrow> chirpCreateRequest option" where
  "sampleUnmarshalChirp raw =
     (if raw = ''{'' then None else Some \<lparr>ccr_Body = raw, ccr_UserID = ''u-1''\<rparr>)"

definition sampleUnmarshalValidate :: "string \<Rightarrow> chirpRequest option" where
  "sampleUnmarshalValidate raw = (if raw = ''{'' then None else Some \<lparr>cr_Body = raw\<rparr>)"

definition sampleUnmarshalUser :: "string \<Rightarrow> userRequest option" where
  "sampleUnmarshalUser raw = (if raw = ''{'' then None else Some \<lparr>ur_Email = raw\<rparr>)"

definition sampleUser :: User where
  "sampleUser = \<lparr>user_ID = ''u-1'', user_CreatedAt = 1, user_UpdatedAt = 1,
                  user_Email = ''a@b.c''\<rparr>"

definition sampleChirp :: Chirp where
  "sampleChirp = \<lparr>chirp_ID = ''c-0'', chirp_CreatedAt = 2, chirp_UpdatedAt = 2,
                   chirp_Body = ''hello'', chirp_UserID = ''u-1''\<rparr>"

definition sampleConfig :: "string \<Rightarrow> apiConfig" where
  "sampleConfig mode =
     \<lparr>fileserverHits = 7, db = \<lparr>users = [sampleUser], chirps = [sampleChirp]\<rparr>,
      platform = mode\<rparr>"

definition sampleRequest :: "string \<Rightarrow> string \<Rightarrow> request" where
  "sampleRequest method raw = \<lparr>Method = method, readAll = Some raw\<rparr>"

definition sampleFileServer :: "request \<Rightarrow> response" where
  "sampleFileServer r = \<lparr>status = 404, contentType = None, payload = NoBody\<rparr>"

definition fullCounterConfig :: apiConfig where
  "fullCounterConfig = \<lparr>fileserverHits = 0x7FFFFFFF, db = \<lparr>users = [], chirps = []\<rparr>,
                         platform = ''prod''\<rparr>"

definition wrappedCounterConfig :: apiConfig where
  "wrappedCounterConfig = \<lparr>fileserverHits = 0x80000000, db = \<lparr>users = [], chirps = []\<rparr>,
                            platform = ''prod''\<rparr>"

section \<open>Splitting and joining\<close>

lemma Split_not_Nil: "Split s sep \<noteq> []"
  by (induction s) (auto split: list.splits)

lemma Join_Cons: "ws \<noteq> [] \<Longrightarrow> Join (w # ws) sep = w @ sep @ Join ws sep"
  by (cases ws) simp_all

lemma Join_Split: "Join (Split s sep) [sep] = s"
proof (induction s)
  case Nil
  show ?case by simp
next
  case (Cons c cs)
  show ?case
  proof (cases "c = sep")
    case True
    with Cons show ?thesis by (simp add: Join_Cons Split_not_Nil)
  next
    case False
    obtain w ws where sp: "Split cs sep = w # ws"
      using Split_not_Nil [of cs sep] by (cases "Split cs sep") auto
    have "Join ((c # w) # ws) [sep] = c # Join (w # ws) [sep]"
      by (cases ws) simp_all
    with False sp Cons show ?thesis by simp
  qed
qed

lemma Split_no_sep: "w \<in> set (Split s sep) \<Longrightarrow> sep \<notin> set w"
proof (induction s arbitrary: w)
  case Nil
  then show ?case by simp
next
  case (Cons c cs)
  then show ?case
    by (cases "Split cs sep") (auto split: if_splits)
qed

lemma Split_append_sep: "sep \<notin> set w \<Longrightarrow> Split (w @ sep # s) sep = w # Split s sep"
  by (induction w) auto

lemma Split_plain: "sep \<notin> set w \<Longrightarrow> Split w sep = [w]"
  by (induction w) auto

lemma Split_Join:
  "ws \<noteq> [] \<Longrightarrow> list_all (\<lambda>w. sep \<notin> set w) ws \<Longrightarrow> Split (Join ws [sep]) sep = ws"
proof (induction ws)
  case Nil
  then show ?case by simp
next
  case (Cons w ws)
  show ?case
  proof (cases ws)
    case Nil
    with Cons.prems show ?thesis by (simp add: Split_plain)
  next
    case (Cons v vs)
    with Cons.prems Cons.IH show ?thesis by (simp add: Split_append_sep)
  qed
qed

lemma length_Join:
  "ws \<noteq> [] \<Longrightarrow>
     length (Join ws sep) = sum_list (map length ws) + length sep * (length ws - 1)"
proof (induction ws)
  case Nil
  then show ?case by simp
next
  case (Cons w ws)
  then show ?case by (cases ws) auto
qed

section \<open>The two loops\<close>

lemma matchesProfane_iff: "matchesProfane wordLower ps = (wordLower \<in> set ps)"
  by (induction ps) auto

lemma cleanWords_eq:
  "cleanWords tbl i words = take i words @ map (maskWord tbl) (drop i words)"
proof (induction tbl i words rule: cleanWords.induct)
  case (1 tbl i words)
  show ?case
  proof (cases "i < length words")
    case False
    then show ?thesis by (simp add: cleanWords.simps [of tbl i words])
  next
    case True
    let ?ws = "if matchesProfane (ToLower tbl (words ! i)) profaneWords
               then words[i := ''****''] else words"
    have step: "cleanWords tbl i words = cleanWords tbl (Suc i) ?ws"
      using True by (simp add: cleanWords.simps [of tbl i words] Let_def)
    have ih: "cleanWords tbl (Suc i) ?ws
                = take (Suc i) ?ws @ map (maskWord tbl) (drop (Suc i) ?ws)"
      using "1.IH" [OF True refl refl] .
    have tk: "take (Suc i) ?ws = take i words @ [maskWord tbl (words ! i)]"
      using True by (simp add: take_Suc_conv_app_nth matchesProfane_iff maskWord_def)
    have dr: "drop (Suc i) ?ws = drop (Suc i) words"
      by simp
    have "drop i words = words ! i # drop (Suc i) words"
      using True by (simp add: Cons_nth_drop_Suc)
    with step ih tk dr show ?thesis by simp
  qed
qed

lemma cleanWords_0: "cleanWords tbl 0 words = map (maskWord tbl) words"
  by (simp add: cleanWords_eq)

lemma cleanChirp_eq: "cleanChirp tbl body = Join (map (maskWord tbl) (Split body CHR '' '')) '' ''"
  by (simp add: cleanChirp_def cleanWords_0)

lemma maskWord_no_space:
  "CHR '' '' \<notin> set w \<Longrightarrow> CHR '' '' \<notin> set (maskWord tbl w)"
  by (simp add: maskWord_def)

lemma Split_cleanChirp:
  "Split (cleanChirp tbl body) CHR '' '' = map (maskWord tbl) (Split body CHR '' '')"
proof -
  let ?ws = "map (maskWord tbl) (Split body CHR '' '')"
  have "?ws \<noteq> []" by (simp add: Split_not_Nil)
  moreover have "CHR '' '' \<notin> set (maskWord tbl w)" if "w \<in> set (Split body CHR '' '')" for w
    using that by (intro maskWord_no_space) (rule Split_no_sep)
  then have "list_all (\<lambda>w. CHR '' '' \<notin> set w) ?ws"
    by (simp add: list_all_iff)
  ultimately have "Split (Join ?ws [CHR '' '']) CHR '' '' = ?ws"
    by (rule Split_Join)
  then show ?thesis by (simp add: cleanChirp_eq)
qed

section \<open>Lower-casing and length\<close>

lemma length_runes: "length (runes s) \<le> length s"
proof (induction s rule: runes.induct)
  case (1 s)
  show ?case
  proof (cases "s = []")
    case True
    then show ?thesis by (simp add: runes.simps [of "[]"])
  next
    case False
    let ?w = "snd (DecodeRuneInString s)"
    have w: "1 \<le> ?w" using False by (rule DecodeRuneInString_width)
    have l: "1 \<le> length s" using False by (cases s) simp_all
    have "runes s = fst (DecodeRuneInString s) # runes (drop ?w s)"
      using False by (simp add: runes.simps [of s])
    then have "length (runes s) = Suc (length (runes (drop ?w s)))" by simp
    also have "\<dots> \<le> Suc (length s - ?w)"
      using "1.IH" [OF False] by simp
    also have "\<dots> \<le> length s" using w l by arith
    finally show ?thesis .
  qed
qed

lemma byte_char_of: "0 \<le> n \<Longrightarrow> n < 256 \<Longrightarrow> byte (char_of n) = n"
  by (simp add: byte_def)

lemma continuation_not_ASCII: "\<not> byte (char_of (0x80 + (r::int) mod 64)) < RuneSelf"
proof -
  have m: "0 \<le> r mod 64" "r mod 64 < 64" by simp_all
  then have "byte (char_of (0x80 + r mod 64)) = 0x80 + r mod 64"
    by (intro byte_char_of) arith+
  with m show ?thesis unfolding RuneSelf_def by linarith
qed

lemma encode3_not_ASCII: "\<not> isASCII (encode3 r)"
  using continuation_not_ASCII [of r] by (simp add: isASCII_def encode3_def)

lemma encodeRune_ASCII_length: "isASCII (encodeRune r) \<Longrightarrow> length (encodeRune r) = 1"
proof -
  assume a: "isASCII (encodeRune r)"
  show ?thesis
  proof (cases "0 \<le> r \<and> r \<le> 0x7F")
    case True
    then show ?thesis by (simp add: encodeRune_def)
  next
    case False
    with a continuation_not_ASCII [of r] encode3_not_ASCII show ?thesis
      by (auto simp: encodeRune_def isASCII_def split: if_splits)
  qed
qed

lemma isASCII_append: "isASCII (xs @ ys) = (isASCII xs \<and> isASCII ys)"
  by (simp add: isASCII_def)

lemma concat_ASCII_length:
  "list_all (\<lambda>xs. isASCII xs \<longrightarrow> length xs \<le> 1) xss \<Longrightarrow> isASCII (concat xss)
     \<Longrightarrow> length (concat xss) \<le> length xss"
  by (induction xss) (auto simp: isASCII_append)

lemma Map_ASCII_length: "isASCII (Map f s) \<Longrightarrow> length (Map f s) \<le> length s"
proof -
  assume a: "isASCII (Map f s)"
  let ?xss = "map (\<lambda>c. if 0 \<le> f c then encodeRune (f c) else []) (runes s)"
  have "list_all (\<lambda>xs. isASCII xs \<longrightarrow> length xs \<le> 1) ?xss"
    by (auto simp: list_all_iff encodeRune_ASCII_length)
  with a have "length (concat ?xss) \<le> length ?xss"
    unfolding Map_def by (rule concat_ASCII_length [rotated])
  also have "\<dots> \<le> length s" using length_runes [of s] by simp
  finally show ?thesis by (simp add: Map_def)
qed

lemma ToLower_ASCII_length:
  "isASCII (ToLower tbl w) \<Longrightarrow> length (ToLower tbl w) \<le> length w"
  by (auto simp: ToLower_def Map_ASCII_length)

lemma isASCII_profane: "p \<in> set profaneWords \<Longrightarrow> isASCII p"
  by (auto simp: profaneWords_def isASCII_def byte_def RuneSelf_def)

lemma length_profane: "p \<in> set profaneWords \<Longrightarrow> 6 \<le> length p"
  by (auto simp: profaneWords_def)

lemma ToLower_profane_length: "ToLower tbl w \<in> set profaneWords \<Longrightarrow> 6 \<le> length w"
  using ToLower_ASCII_length [of tbl w] isASCII_profane [of "ToLower tbl w"]
    length_profane [of "ToLower tbl w"] by simp

lemma length_maskWord: "length (maskWord tbl w) \<le> length w"
  using ToLower_profane_length [of tbl w] by (auto simp: maskWord_def)

lemma length_cleanChirp: "length (cleanChirp tbl body) \<le> length body"
proof -
  let ?ws = "Split body CHR '' ''"
  have ne: "?ws \<noteq> []" by (rule Split_not_Nil)
  have "sum_list (map length (map (maskWord tbl) ?ws)) \<le> sum_list (map length ?ws)"
    unfolding map_map comp_def by (rule sum_list_mono) (rule length_maskWord)
  then have "length (Join (map (maskWord tbl) ?ws) '' '') \<le> length (Join ?ws '' '')"
    using ne by (simp add: length_Join)
  then show ?thesis by (simp add: cleanChirp_eq Join_Split)
qed

lemma profane_not_inside:
  "p \<in> set profaneWords \<Longrightarrow> q \<in> set profaneWords \<Longrightarrow> q = x @ p @ y \<Longrightarrow> x = [] \<and> y = []"
proof -
  assume p: "p \<in> set profaneWords" and q: "q \<in> set profaneWords" and e: "q = x @ p @ y"
  have s: "set p \<subseteq> set q" and l: "length q = length x + length p + length y"
    using e by auto
  from p q s l show ?thesis
    by (auto simp: profaneWords_def)
qed

lemma longer_token_no_match:
  assumes "isASCII w" and "w = a @ m @ b" and "a @ b \<noteq> []"
    and "ToLower tbl m \<in> set profaneWords"
  shows "ToLower tbl w \<notin> set profaneWords"
proof
  assume q: "ToLower tbl w \<in> set profaneWords"
  from assms(1,2) have am: "isASCII m" by (simp add: isASCII_append)
  have "ToLower tbl w = map lowerByte a @ ToLower tbl m @ map lowerByte b"
    using assms(1,2) am by (simp add: ToLower_def)
  from profane_not_inside [OF assms(4) q this] assms(3) show False by simp
qed

section \<open>The cleaning transform: the claims\<close>

text \<open>
  Claim C1.  A token is a piece of the body between single spaces, and it equals a
  denylist word case-insensitively when its lower-cased form (\<^verbatim>\<open>strings.ToLower\<close>) is
  that word.  For every body and every position \<open>i\<close> of a token: the output has as many
  tokens as the input; if token \<open>i\<close> is a denylist word up to case, token \<open>i\<close> of the
  output is the mask \<^verbatim>\<open>****\<close>; if it is not, token \<open>i\<close> of the output is token \<open>i\<close>
  of the input, untouched.  In particular an ASCII token that contains a denylist word
  (up to case) between a prefix \<open>a\<close> and a suffix \<open>b\<close>, not both empty, is untouched.
\<close>

theorem cleanChirp_masks_whole_tokens_only:
  assumes "i < length (Split body CHR '' '')"
  shows "length (Split (cleanChirp tbl body) CHR '' '') = length (Split body CHR '' '')
    \<and> (ToLower tbl (Split body CHR '' '' ! i) \<in> set profaneWords
         \<longrightarrow> Split (cleanChirp tbl body) CHR '' '' ! i = ''****'')
    \<and> (ToLower tbl (Split body CHR '' '' ! i) \<notin> set profaneWords
         \<longrightarrow> Split (cleanChirp tbl body) CHR '' '' ! i = Split body CHR '' '' ! i)
    \<and> (isASCII (Split body CHR '' '' ! i) \<and> Split body CHR '' '' ! i = a @ m @ b
          \<and> a @ b \<noteq> [] \<and> ToLower tbl m \<in> set profaneWords
         \<longrightarrow> Split (cleanChirp tbl body) CHR '' '' ! i = Split body CHR '' '' ! i)"
proof -
  let ?w = "Split body CHR '' '' ! i"
  have out: "Split (cleanChirp tbl body) CHR '' '' ! i = maskWord tbl ?w"
    using assms by (simp add: Split_cleanChirp)
  have "isASCII ?w \<and> ?w = a @ m @ b \<and> a @ b \<noteq> [] \<and> ToLower tbl m \<in> set profaneWords
          \<longrightarrow> ToLower tbl ?w \<notin> set profaneWords"
    using longer_token_no_match [of ?w a m b tbl] by blast
  with out show ?thesis
    by (auto simp: Split_cleanChirp maskWord_def)
qed

theorem cleanChirp_masks_whole_tokens_only_witness:
  "Split ''a KERFUFFLE kerfuffles'' CHR '' '' = [''a'', ''KERFUFFLE'', ''kerfuffles'']
   \<and> ToLower id ''KERFUFFLE'' = ''kerfuffle''
   \<and> Split (cleanChirp id ''a KERFUFFLE kerfuffles'') CHR '' '' ! 1 = ''****''
   \<and> Split (cleanChirp id ''a KERFUFFLE kerfuffles'') CHR '' '' ! 2 = ''kerfuffles''"
proof -
  have sp: "Split ''a KERFUFFLE kerfuffles'' CHR '' '' = [''a'', ''KERFUFFLE'', ''kerfuffles'']"
    by code_simp
  have lo: "ToLower id ''KERFUFFLE'' = ''kerfuffle''"
    by code_simp
  have lo': "ToLower id ''kerfuffle'' = ''kerfuffle''"
    by code_simp
  have asc: "isASCII ''kerfuffles''"
    by code_simp
  have i1: "1 < length (Split ''a KERFUFFLE kerfuffles'' CHR '' '')"
    and i2: "2 < length (Split ''a KERFUFFLE kerfuffles'' CHR '' '')"
    by (simp_all add: sp)
  have "Split (cleanChirp id ''a KERFUFFLE kerfuffles'') CHR '' '' ! 1 = ''****''"
    using cleanChirp_masks_whole_tokens_only [OF i1, where tbl = id]
    by (simp add: sp lo profaneWords_def)
  moreover have "Split (cleanChirp id ''a KERFUFFLE kerfuffles'') CHR '' '' ! 2 = ''kerfuffles''"
    using cleanChirp_masks_whole_tokens_only
      [OF i2, where tbl = id and a = "[]" and m = "''kerfuffle''" and b = "''s''"] asc
    by (simp add: sp lo' profaneWords_def)
  ultimately show ?thesis using sp lo by simp
qed

text \<open>
  Claim C2, as stated: the transform equals the reference that lower-cases each token
  before rejoining.  It does not: the body \<^verbatim>\<open>Hello\<close> is accepted (5 bytes) and comes out
  as \<^verbatim>\<open>Hello\<close>, while the reference gives \<^verbatim>\<open>hello\<close>.
\<close>

theorem cleanChirp_specClean_counterexample:
  "length ''Hello'' \<le> 140 \<and> cleanChirp id ''Hello'' = ''Hello''
   \<and> specClean id ''Hello'' = ''hello'' \<and> cleanChirp id ''Hello'' \<noteq> specClean id ''Hello''"
  by code_simp

text \<open>
  Claim C2, amended: for every body, accepted or not, the transform equals the reference
  function that splits the body on single spaces, replaces by the mask each token whose
  lower-cased form is one of the three denylist words, keeps every other token as it was
  written, and rejoins the tokens with single spaces.
\<close>

theorem cleanChirp_refines_cleanReference:
  "cleanChirp tbl body = cleanReference tbl body"
  by (simp add: cleanChirp_eq cleanReference_def)

text \<open>
  Claim C4.  When no token of the body is a denylist word up to case, the output of the
  transform is the body, byte for byte.  (No bound on the length is needed.)
\<close>

theorem cleanChirp_identity:
  assumes "list_all (\<lambda>token. ToLower tbl token \<notin> set profaneWords) (Split body CHR '' '')"
  shows "cleanChirp tbl body = body"
proof -
  have "map (maskWord tbl) (Split body CHR '' '') = map (\<lambda>w. w) (Split body CHR '' '')"
    using assms by (intro map_cong) (auto simp: list_all_iff maskWord_def)
  then have "cleanChirp tbl body = Join (Split body CHR '' '') [CHR '' '']"
    by (simp add: cleanChirp_eq)
  then show ?thesis by (simp add: Join_Split)
qed

theorem cleanChirp_identity_witness:
  "list_all (\<lambda>token. ToLower id token \<notin> set profaneWords) (Split ''Big  Kerfuffles '' CHR '' '')
   \<and> cleanChirp id ''Big  Kerfuffles '' = ''Big  Kerfuffles ''"
proof -
  have h: "list_all (\<lambda>token. ToLower id token \<notin> set profaneWords)
             (Split ''Big  Kerfuffles '' CHR '' '')"
    by code_simp
  from h cleanChirp_identity [OF h] show ?thesis by simp
qed

text \<open>
  Claim C5.  The transform never lengthens a body, so a body that passed the length check
  (at most 140 bytes) is at most 140 bytes after cleaning; and when every chirp in the
  database has a body of at most 140 bytes, the same holds after \<^verbatim>\<open>createChirpHandler\<close>
  has answered any request.
\<close>

theorem persisted_body_at_most_140:
  assumes "list_all (\<lambda>c. length (chirp_Body c) \<le> 140) (chirps (db cfg))"
  shows "(length body \<le> 140 \<longrightarrow> length (cleanChirp tbl body) \<le> 140)
    \<and> list_all (\<lambda>c. length (chirp_Body c) \<le> 140)
         (chirps (db (snd (createChirpHandler tbl unmarshal ok newID now cfg r))))"
proof
  show "length body \<le> 140 \<longrightarrow> length (cleanChirp tbl body) \<le> 140"
    using length_cleanChirp [of tbl body] by simp
next
  have "length (cleanChirp tbl b) \<le> 140" if "\<not> 140 < length b" for b
    using that length_cleanChirp [of tbl b] by simp
  with assms show "list_all (\<lambda>c. length (chirp_Body c) \<le> 140)
      (chirps (db (snd (createChirpHandler tbl unmarshal ok newID now cfg r))))"
    by (simp add: createChirpHandler_def CreateChirp_def Let_def
          split: option.splits if_splits)
qed

theorem persisted_body_at_most_140_witness:
  "list_all (\<lambda>c. length (chirp_Body c) \<le> 140) (chirps (db (sampleConfig ''prod'')))
   \<and> length ''oh fornax'' \<le> 140 \<and> length (cleanChirp id ''oh fornax'') \<le> 140
   \<and> map chirp_Body (chirps (db (snd (createChirpHandler id sampleUnmarshalChirp True
         ''c-1'' 5 (sampleConfig ''prod'') (sampleRequest ''POST'' ''oh fornax''))))) = [''hello'', ''oh ****'']
   \<and> list_all (\<lambda>c. length (chirp_Body c) \<le> 140)
        (chirps (db (snd (createChirpHandler id sampleUnmarshalChirp True
         ''c-1'' 5 (sampleConfig ''prod'') (sampleRequest ''POST'' ''oh fornax'')))))"
proof -
  have h: "list_all (\<lambda>c. length (chirp_Body c) \<le> 140) (chirps (db (sampleConfig ''prod'')))"
    by (simp add: sampleConfig_def sampleChirp_def)
  have c: "cleanChirp id ''oh fornax'' = ''oh ****''"
    by code_simp
  have s: "map chirp_Body (chirps (db (snd (createChirpHandler id sampleUnmarshalChirp True
         ''c-1'' 5 (sampleConfig ''prod'') (sampleRequest ''POST'' ''oh fornax''))))) = [''hello'', ''oh ****'']"
    by (simp add: createChirpHandler_def CreateChirp_def sampleUnmarshalChirp_def
          sampleConfig_def sampleChirp_def sampleRequest_def Let_def c)
  from persisted_body_at_most_140 [OF h, of "''oh fornax''" id sampleUnmarshalChirp True
      "''c-1''" 5 "sampleRequest ''POST'' ''oh fornax''"] h s
  show ?thesis by simp
qed

section \<open>The handlers: the claims\<close>

text \<open>
  Claim C3.  A request reaches the length check when it is a POST whose body was read
  and decoded.  If the decoded chirp body is longer than 140 bytes (a text of more than
  140 characters has more than 140 bytes), whatever it contains, \<^verbatim>\<open>createChirpHandler\<close>
  answers 400 with the error \<^verbatim>\<open>Chirp is too long\<close> and leaves the state, database
  included, as it was; \<^verbatim>\<open>validateChirpHandler\<close> answers the same.
\<close>

theorem too_long_is_rejected:
  assumes "Method r = MethodPost" and "readAll r = Some raw"
  shows "(unmarshalC raw = Some req \<and> 140 < length (ccr_Body req) \<longrightarrow>
            status (fst (createChirpHandler tbl unmarshalC ok newID now cfg r)) = 400
          \<and> payload (fst (createChirpHandler tbl unmarshalC ok newID now cfg r))
              = ErrorJSON ''Chirp is too long''
          \<and> snd (createChirpHandler tbl unmarshalC ok newID now cfg r) = cfg)
    \<and> (unmarshalV raw = Some chirp \<and> 140 < length (cr_Body chirp) \<longrightarrow>
            status (validateChirpHandler tbl unmarshalV r) = 400
          \<and> payload (validateChirpHandler tbl unmarshalV r) = ErrorJSON ''Chirp is too long'')"
  using assms
  by (simp add: createChirpHandler_def validateChirpHandler_def writeError_def)

theorem too_long_is_rejected_witness:
  "140 < length (replicate 141 CHR ''a'')
   \<and> status (fst (createChirpHandler id sampleUnmarshalChirp True ''c-1'' 5
        (sampleConfig ''prod'') (sampleRequest ''POST'' (replicate 141 CHR ''a'')))) = 400
   \<and> snd (createChirpHandler id sampleUnmarshalChirp True ''c-1'' 5
        (sampleConfig ''prod'') (sampleRequest ''POST'' (replicate 141 CHR ''a'')))
       = sampleConfig ''prod''
   \<and> status (validateChirpHandler id sampleUnmarshalValidate
        (sampleRequest ''POST'' (replicate 141 CHR ''a''))) = 400"
proof -
  let ?raw = "replicate 141 CHR ''a''"
  have m: "Method (sampleRequest ''POST'' ?raw) = MethodPost"
    and b: "readAll (sampleRequest ''POST'' ?raw) = Some ?raw"
    by (simp_all add: sampleRequest_def)
  have ne: "?raw \<noteq> ''{''"
  proof
    assume "?raw = ''{''"
    then have "length ?raw = length ''{''" by (rule arg_cong)
    then show False by simp
  qed
  have uc: "sampleUnmarshalChirp ?raw = Some \<lparr>ccr_Body = ?raw, ccr_UserID = ''u-1''\<rparr>"
    and uv: "sampleUnmarshalValidate ?raw = Some \<lparr>cr_Body = ?raw\<rparr>"
    using ne by (simp_all add: sampleUnmarshalChirp_def sampleUnmarshalValidate_def)
  from too_long_is_rejected [OF m b, of sampleUnmarshalChirp
      "\<lparr>ccr_Body = ?raw, ccr_UserID = ''u-1''\<rparr>" id True "''c-1''" 5 "sampleConfig ''prod''"
      sampleUnmarshalValidate "\<lparr>cr_Body = ?raw\<rparr>"] uc uv
  show ?thesis by simp
qed

text \<open>
  Claim C6.  A POST to the reset endpoint when the platform is not \<^verbatim>\<open>dev\<close> is answered
  403, and the state after it is the state before it: the hit counter and the users
  (and everything else) are unchanged.
\<close>

theorem reset_forbidden_outside_dev:
  assumes "Method r = MethodPost" and "platform cfg \<noteq> ''dev''"
  shows "status (fst (resetHandler ok cfg r)) = 403
    \<and> snd (resetHandler ok cfg r) = cfg
    \<and> fileserverHits (snd (resetHandler ok cfg r)) = fileserverHits cfg
    \<and> users (db (snd (resetHandler ok cfg r))) = users (db cfg)"
  using assms by (simp add: resetHandler_def writeError_def)

theorem reset_forbidden_outside_dev_witness:
  "Method (sampleRequest ''POST'' []) = MethodPost \<and> platform (sampleConfig ''prod'') \<noteq> ''dev''
   \<and> status (fst (resetHandler True (sampleConfig ''prod'') (sampleRequest ''POST'' []))) = 403
   \<and> fileserverHits (snd (resetHandler True (sampleConfig ''prod'') (sampleRequest ''POST'' []))) = 7
   \<and> users (db (snd (resetHandler True (sampleConfig ''prod'') (sampleRequest ''POST'' []))))
       = [sampleUser]"
proof -
  have m: "Method (sampleRequest ''POST'' []) = MethodPost"
    by (simp add: sampleRequest_def)
  have p: "platform (sampleConfig ''prod'') \<noteq> ''dev''"
    by (simp add: sampleConfig_def)
  from reset_forbidden_outside_dev [OF m p, of True] m p
  show ?thesis by (simp add: sampleConfig_def)
qed

text \<open>
  Claim C7.  A POST to the reset endpoint in \<^verbatim>\<open>dev\<close> mode whose \<^verbatim>\<open>DeleteAllUsers\<close> succeeds
  is answered 200; afterwards the hit counter is zero, the database is the one the delete
  returned, and its table of users is empty.
\<close>

theorem reset_in_dev_mode:
  assumes "Method r = MethodPost" and "platform cfg = ''dev''"
    and "DeleteAllUsers ok (db cfg) = Some d"
  shows "status (fst (resetHandler ok cfg r)) = 200
    \<and> fileserverHits (snd (resetHandler ok cfg r)) = 0
    \<and> db (snd (resetHandler ok cfg r)) = d
    \<and> users (db (snd (resetHandler ok cfg r))) = []"
  using assms
  by (auto simp: resetHandler_def writeHeaderOnly_def DeleteAllUsers_def split: if_splits)

theorem reset_in_dev_mode_witness:
  "DeleteAllUsers True (db (sampleConfig ''dev'')) = Some \<lparr>users = [], chirps = [sampleChirp]\<rparr>
   \<and> fileserverHits (sampleConfig ''dev'') = 7 \<and> users (db (sampleConfig ''dev'')) = [sampleUser]
   \<and> status (fst (resetHandler True (sampleConfig ''dev'') (sampleRequest ''POST'' []))) = 200
   \<and> fileserverHits (snd (resetHandler True (sampleConfig ''dev'') (sampleRequest ''POST'' []))) = 0
   \<and> users (db (snd (resetHandler True (sampleConfig ''dev'') (sampleRequest ''POST'' [])))) = []"
proof -
  have m: "Method (sampleRequest ''POST'' []) = MethodPost"
    by (simp add: sampleRequest_def)
  have p: "platform (sampleConfig ''dev'') = ''dev''"
    by (simp add: sampleConfig_def)
  have d: "DeleteAllUsers True (db (sampleConfig ''dev'')) = Some \<lparr>users = [], chirps = [sampleChirp]\<rparr>"
    by (simp add: DeleteAllUsers_def sampleConfig_def)
  from reset_in_dev_mode [OF m p d] d
  show ?thesis by (simp add: sampleConfig_def)
qed

text \<open>
  Claim C10.  A POST to the reset endpoint in \<^verbatim>\<open>dev\<close> mode whose \<^verbatim>\<open>DeleteAllUsers\<close> fails is
  answered 500 with the error \<^verbatim>\<open>Failed to delete users\<close>, and the hit counter is zero
  all the same: it was stored before the delete was attempted.
\<close>

theorem reset_not_atomic_on_failure:
  assumes "Method r = MethodPost" and "platform cfg = ''dev''"
    and "DeleteAllUsers ok (db cfg) = None"
  shows "status (fst (resetHandler ok cfg r)) = 500
    \<and> payload (fst (resetHandler ok cfg r)) = ErrorJSON ''Failed to delete users''
    \<and> fileserverHits (snd (resetHandler ok cfg r)) = 0
    \<and> db (snd (resetHandler ok cfg r)) = db cfg"
  using assms by (simp add: resetHandler_def writeError_def)

theorem reset_not_atomic_on_failure_witness:
  "DeleteAllUsers False (db (sampleConfig ''dev'')) = None
   \<and> fileserverHits (sampleConfig ''dev'') = 7
   \<and> status (fst (resetHandler False (sampleConfig ''dev'') (sampleRequest ''POST'' []))) = 500
   \<and> fileserverHits (snd (resetHandler False (sampleConfig ''dev'') (sampleRequest ''POST'' []))) = 0
   \<and> users (db (snd (resetHandler False (sampleConfig ''dev'') (sampleRequest ''POST'' []))))
       = [sampleUser]"
proof -
  have m: "Method (sampleRequest ''POST'' []) = MethodPost"
    by (simp add: sampleRequest_def)
  have p: "platform (sampleConfig ''dev'') = ''dev''"
    by (simp add: sampleConfig_def)
  have d: "DeleteAllUsers False (db (sampleConfig ''dev'')) = None"
    by (simp add: DeleteAllUsers_def)
  from reset_not_atomic_on_failure [OF m p d] d
  show ?thesis by (simp add: sampleConfig_def)
qed

text \<open>
  Claim C8, as stated: every error response of the two creation endpoints is in one of
  the two classes.  It is not: a request whose method is not POST is answered 405 with
  no body at all, which is neither a 4xx with a JSON error object nor a 500.
\<close>

theorem creation_errors_two_classes_counterexample:
  "status (fst (createUserHandler sampleUnmarshalUser True ''u-2'' 5 (sampleConfig ''prod'')
       (sampleRequest ''GET'' ''a@b.c''))) = 405
   \<and> payload (fst (createUserHandler sampleUnmarshalUser True ''u-2'' 5 (sampleConfig ''prod'')
       (sampleRequest ''GET'' ''a@b.c''))) = NoBody
   \<and> \<not> clientErrorClass (fst (createUserHandler sampleUnmarshalUser True ''u-2'' 5
       (sampleConfig ''prod'') (sampleRequest ''GET'' ''a@b.c'')))
   \<and> \<not> serverErrorClass (fst (createUserHandler sampleUnmarshalUser True ''u-2'' 5
       (sampleConfig ''prod'') (sampleRequest ''GET'' ''a@b.c'')))
   \<and> status (fst (createChirpHandler id sampleUnmarshalChirp True ''c-1'' 5 (sampleConfig ''prod'')
       (sampleRequest ''GET'' ''hello''))) = 405
   \<and> \<not> clientErrorClass (fst (createChirpHandler id sampleUnmarshalChirp True ''c-1'' 5
       (sampleConfig ''prod'') (sampleRequest ''GET'' ''hello'')))
   \<and> \<not> serverErrorClass (fst (createChirpHandler id sampleUnmarshalChirp True ''c-1'' 5
       (sampleConfig ''prod'') (sampleRequest ''GET'' ''hello'')))"
  by (simp add: createUserHandler_def createChirpHandler_def sampleRequest_def
        writeHeaderOnly_def clientErrorClass_def serverErrorClass_def)

text \<open>
  Claim C8, amended.  For every POST to the user-creation or chirp-creation endpoint
  whose body was read: a body that is not valid JSON is answered 400 with the JSON error
  \<^verbatim>\<open>Invalid JSON\<close>; a chirp body of more than 140 bytes is answered 400 with the JSON
  error \<^verbatim>\<open>Chirp is too long\<close>; otherwise a failure of the database call is answered 500
  with a JSON error that says only which creation failed; otherwise the answer is 201.
  So every response to such a request is a 201, a client error or a server error.
  Outside these requests, a method other than POST is answered 405 with an empty body,
  and a body that cannot be read is answered 500 with the JSON error
  \<^verbatim>\<open>Failed to read request\<close>.
\<close>

theorem creation_error_classes:
  "(let RU = fst (createUserHandler unmarshalU ok newID now cfg r);
        RC = fst (createChirpHandler tbl unmarshalC ok newID now cfg r)
    in (Method r \<noteq> MethodPost \<longrightarrow>
          status RU = 405 \<and> payload RU = NoBody \<and> status RC = 405 \<and> payload RC = NoBody)
     \<and> (Method r = MethodPost \<and> readAll r = None \<longrightarrow>
          status RU = 500 \<and> payload RU = ErrorJSON ''Failed to read request''
        \<and> status RC = 500 \<and> payload RC = ErrorJSON ''Failed to read request'')
     \<and> (Method r = MethodPost \<and> readAll r = Some raw \<longrightarrow>
          (unmarshalU raw = None \<longrightarrow>
             status RU = 400 \<and> payload RU = ErrorJSON ''Invalid JSON'')
        \<and> (unmarshalU raw \<noteq> None \<and> \<not> ok \<longrightarrow>
             status RU = 500 \<and> payload RU = ErrorJSON ''Failed to create user'')
        \<and> (unmarshalU raw \<noteq> None \<and> ok \<longrightarrow> status RU = 201)
        \<and> (unmarshalC raw = None \<longrightarrow>
             status RC = 400 \<and> payload RC = ErrorJSON ''Invalid JSON'')
        \<and> (unmarshalC raw = Some req \<and> 140 < length (ccr_Body req) \<longrightarrow>
             status RC = 400 \<and> payload RC = ErrorJSON ''Chirp is too long'')
        \<and> (unmarshalC raw = Some req \<and> length (ccr_Body req) \<le> 140 \<and> \<not> ok \<longrightarrow>
             status RC = 500 \<and> payload RC = ErrorJSON ''Failed to create chirp'')
        \<and> (unmarshalC raw = Some req \<and> length (ccr_Body req) \<le> 140 \<and> ok \<longrightarrow>
             status RC = 201)
        \<and> (status RU = 201 \<or> clientErrorClass RU \<or> serverErrorClass RU)
        \<and> (status RC = 201 \<or> clientErrorClass RC \<or> serverErrorClass RC)))"
  by (auto simp: Let_def createUserHandler_def createChirpHandler_def CreateUser_def
        CreateChirp_def writeError_def writeHeaderOnly_def clientErrorClass_def
        serverErrorClass_def split: option.splits)

theorem creation_error_classes_witness:
  "status (fst (createUserHandler sampleUnmarshalUser True ''u-2'' 5 (sampleConfig ''prod'')
       (sampleRequest ''POST'' ''{''))) = 400
   \<and> payload (fst (createUserHandler sampleUnmarshalUser True ''u-2'' 5 (sampleConfig ''prod'')
       (sampleRequest ''POST'' ''{''))) = ErrorJSON ''Invalid JSON''
   \<and> status (fst (createChirpHandler id sampleUnmarshalChirp False ''c-1'' 5 (sampleConfig ''prod'')
       (sampleRequest ''POST'' ''hello''))) = 500
   \<and> payload (fst (createChirpHandler id sampleUnmarshalChirp False ''c-1'' 5 (sampleConfig ''prod'')
       (sampleRequest ''POST'' ''hello''))) = ErrorJSON ''Failed to create chirp''
   \<and> status (fst (createUserHandler sampleUnmarshalUser True ''u-2'' 5 (sampleConfig ''prod'')
       (sampleRequest ''GET'' ''a@b.c''))) = 405
   \<and> status (fst (createUserHandler sampleUnmarshalUser True ''u-2'' 5 (sampleConfig ''prod'')
       \<lparr>Method = ''POST'', readAll = None\<rparr>)) = 500"
proof -
  have m: "Method (sampleRequest ''POST'' raw) = MethodPost"
    and b: "readAll (sampleRequest ''POST'' raw) = Some raw"
    and g: "Method (sampleRequest ''GET'' raw) \<noteq> MethodPost" for raw
    by (simp_all add: sampleRequest_def)
  have u: "sampleUnmarshalUser ''{'' = None"
    by (simp add: sampleUnmarshalUser_def)
  have c: "sampleUnmarshalChirp ''hello'' = Some \<lparr>ccr_Body = ''hello'', ccr_UserID = ''u-1''\<rparr>"
    by (simp add: sampleUnmarshalChirp_def)
  have l: "length (ccr_Body \<lparr>ccr_Body = ''hello'', ccr_UserID = ''u-1''\<rparr>) \<le> 140"
    by simp
  from creation_error_classes [where r = "sampleRequest ''POST'' ''{''" and raw = "''{''"
      and unmarshalU = sampleUnmarshalUser and ok = True and newID = "''u-2''" and now = 5
      and cfg = "sampleConfig ''prod''"] m b u
  have 1: "status (fst (createUserHandler sampleUnmarshalUser True ''u-2'' 5 (sampleConfig ''prod'')
       (sampleRequest ''POST'' ''{''))) = 400
   \<and> payload (fst (createUserHandler sampleUnmarshalUser True ''u-2'' 5 (sampleConfig ''prod'')
       (sampleRequest ''POST'' ''{''))) = ErrorJSON ''Invalid JSON''"
    by (simp add: Let_def)
  from creation_error_classes [where r = "sampleRequest ''POST'' ''hello''" and raw = "''hello''"
      and unmarshalC = sampleUnmarshalChirp and ok = False and newID = "''c-1''" and now = 5
      and cfg = "sampleConfig ''prod''" and tbl = id
      and req = "\<lparr>ccr_Body = ''hello'', ccr_UserID = ''u-1''\<rparr>"] m b c l
  have 2: "status (fst (createChirpHandler id sampleUnmarshalChirp False ''c-1'' 5 (sampleConfig ''prod'')
       (sampleRequest ''POST'' ''hello''))) = 500
   \<and> payload (fst (createChirpHandler id sampleUnmarshalChirp False ''c-1'' 5 (sampleConfig ''prod'')
       (sampleRequest ''POST'' ''hello''))) = ErrorJSON ''Failed to create chirp''"
    by (simp add: Let_def)
  from creation_error_classes [where r = "sampleRequest ''GET'' ''a@b.c''"
      and unmarshalU = sampleUnmarshalUser and ok = True and newID = "''u-2''" and now = 5
      and cfg = "sampleConfig ''prod''"] g
  have 3: "status (fst (createUserHandler sampleUnmarshalUser True ''u-2'' 5 (sampleConfig ''prod'')
       (sampleRequest ''GET'' ''a@b.c''))) = 405"
    by (simp add: Let_def)
  from creation_error_classes [where r = "\<lparr>Method = ''POST'', readAll = None\<rparr>"
      and unmarshalU = sampleUnmarshalUser and ok = True and newID = "''u-2''" and now = 5
      and cfg = "sampleConfig ''prod''"]
  have 4: "status (fst (createUserHandler sampleUnmarshalUser True ''u-2'' 5 (sampleConfig ''prod'')
       \<lparr>Method = ''POST'', readAll = None\<rparr>)) = 500"
    by (simp add: Let_def)
  from 1 2 3 4 show ?thesis by simp
qed

section \<open>The hit counter under concurrent requests\<close>

lemma serve_keeps_sum:
  "rtranclp (serve next) (cfg, pending) (cfg', pending') \<Longrightarrow>
     fileserverHits cfg' + of_nat (length pending')
       = fileserverHits cfg + of_nat (length pending)"
proof (induction rule: rtranclp_induct2)
  case refl
  show ?case by simp
next
  case (step c1 p1 c2 p2)
  from step.hyps(2) obtain i where i: "i < length p1"
    and c2: "c2 = snd (middlewareMetricsInc next c1 (p1 ! i))"
    and p2: "p2 = take i p1 @ drop (Suc i) p1"
    by (auto elim: serve.cases)
  from i p2 have "length p1 = Suc (length p2)" by simp
  moreover from c2 have "fileserverHits c2 = fileserverHits c1 + 1"
    by (simp add: middlewareMetricsInc_def)
  ultimately have "fileserverHits c2 + of_nat (length p2)
      = fileserverHits c1 + of_nat (length p1)"
    by simp
  with step.IH show ?case by simp
qed

lemma serve_completes:
  "\<exists>cfg'. rtranclp (serve next) (cfg, pending) (cfg', [])"
proof (induction pending arbitrary: cfg)
  case Nil
  show ?case by blast
next
  case (Cons r rs)
  have "serve next (cfg, r # rs)
          (snd (middlewareMetricsInc next cfg ((r # rs) ! 0)), take 0 (r # rs) @ drop (Suc 0) (r # rs))"
    by (rule serve.step) simp
  then have s: "serve next (cfg, r # rs) (snd (middlewareMetricsInc next cfg r), rs)"
    by simp
  from Cons [of "snd (middlewareMetricsInc next cfg r)"] obtain cfg'
    where "rtranclp (serve next) (snd (middlewareMetricsInc next cfg r), rs) (cfg', [])"
    by blast
  with s have "rtranclp (serve next) (cfg, r # rs) (cfg', [])"
    by (rule converse_rtranclp_into_rtranclp)
  then show ?case by blast
qed

lemma sint_add_of_nat:
  fixes c :: "32 word"
  assumes "sint c + int n \<le> 2147483647"
  shows "sint (c + of_nat n) = sint c + int n"
proof -
  have lo: "- 2147483648 \<le> sint c" using sint_ge [of c] by simp
  have "c + of_nat n = word_of_int (sint c + int n)"
    by simp
  then have "sint (c + of_nat n) = signed_take_bit 31 (sint c + int n)"
    by (simp only: signed_of_int) simp
  also have "\<dots> = sint c + int n"
    using lo assms by (simp add: signed_take_bit_int_eq_self)
  finally show ?thesis .
qed

text \<open>
  Claim C9, as stated: after \<open>n\<close> requests that start at the counter value \<open>c\<close> the
  counter equals \<open>c + n\<close>.  The counter is an \<^verbatim>\<open>atomic.Int32\<close>: one request that starts
  at 2147483647 leaves it at -2147483648, not at 2147483648.
\<close>

theorem hit_counter_sum_counterexample:
  "rtranclp (serve sampleFileServer) (fullCounterConfig, [sampleRequest ''GET'' []])
      (wrappedCounterConfig, [])
   \<and> sint (fileserverHits fullCounterConfig) = 2147483647
   \<and> sint (fileserverHits wrappedCounterConfig) = - 2147483648
   \<and> sint (fileserverHits wrappedCounterConfig)
       \<noteq> sint (fileserverHits fullCounterConfig) + int (length [sampleRequest ''GET'' []])"
proof -
  have "serve sampleFileServer (fullCounterConfig, [sampleRequest ''GET'' []])
      (snd (middlewareMetricsInc sampleFileServer fullCounterConfig
              ([sampleRequest ''GET'' []] ! 0)),
       take 0 [sampleRequest ''GET'' []] @ drop (Suc 0) [sampleRequest ''GET'' []])"
    by (rule serve.step) simp
  moreover have "snd (middlewareMetricsInc sampleFileServer fullCounterConfig
      ([sampleRequest ''GET'' []] ! 0)) = wrappedCounterConfig"
    by (simp add: middlewareMetricsInc_def fullCounterConfig_def wrappedCounterConfig_def)
  ultimately have "serve sampleFileServer (fullCounterConfig, [sampleRequest ''GET'' []])
      (wrappedCounterConfig, [])"
    by simp
  then have "rtranclp (serve sampleFileServer) (fullCounterConfig, [sampleRequest ''GET'' []])
      (wrappedCounterConfig, [])"
    by (rule r_into_rtranclp)
  moreover have "sint (fileserverHits fullCounterConfig) = 2147483647"
    by (simp add: fullCounterConfig_def)
  moreover have "sint (fileserverHits wrappedCounterConfig) = - 2147483648"
    by (simp add: wrappedCounterConfig_def)
  ultimately show ?thesis by simp
qed

text \<open>
  Claim C9, amended.  For every list of pending requests to the file server and every
  order in which their atomic increments take effect, once all have completed the hit
  counter is the starting value plus the number of requests in 32-bit wrap-around
  arithmetic; whenever that sum does not exceed 2147483647, the counter equals it
  exactly.  No increment is lost in any interleaving.
\<close>

theorem hit_counter_counts_every_request:
  assumes "rtranclp (serve next) (cfg, pending) (cfg', [])"
  shows "fileserverHits cfg' = fileserverHits cfg + of_nat (length pending)
    \<and> (sint (fileserverHits cfg) + int (length pending) \<le> 2147483647 \<longrightarrow>
         sint (fileserverHits cfg') = sint (fileserverHits cfg) + int (length pending))"
proof -
  from serve_keeps_sum [OF assms]
  have e: "fileserverHits cfg' = fileserverHits cfg + of_nat (length pending)"
    by simp
  then show ?thesis by (simp add: sint_add_of_nat)
qed

theorem hit_counter_counts_every_request_witness:
  "rtranclp (serve sampleFileServer)
      (sampleConfig ''prod'', [sampleRequest ''GET'' ''a'', sampleRequest ''GET'' ''b''])
      ((sampleConfig ''prod'')\<lparr>fileserverHits := 9\<rparr>, [])
   \<and> sint (fileserverHits (sampleConfig ''prod''))
        + int (length [sampleRequest ''GET'' ''a'', sampleRequest ''GET'' ''b'']) \<le> 2147483647
   \<and> sint (fileserverHits ((sampleConfig ''prod'')\<lparr>fileserverHits := 9\<rparr>))
       = sint (fileserverHits (sampleConfig ''prod''))
           + int (length [sampleRequest ''GET'' ''a'', sampleRequest ''GET'' ''b''])"
proof -
  let ?a = "sampleRequest ''GET'' ''a''" and ?b = "sampleRequest ''GET'' ''b''"
  let ?c7 = "sampleConfig ''prod''"
  let ?c8 = "(sampleConfig ''prod'')\<lparr>fileserverHits := 8\<rparr>"
  let ?c9 = "(sampleConfig ''prod'')\<lparr>fileserverHits := 9\<rparr>"
  have "serve sampleFileServer (?c7, [?a, ?b])
      (snd (middlewareMetricsInc sampleFileServer ?c7 ([?a, ?b] ! 1)),
       take 1 [?a, ?b] @ drop (Suc 1) [?a, ?b])"
    by (rule serve.step) simp
  moreover have "snd (middlewareMetricsInc sampleFileServer ?c7 ([?a, ?b] ! 1)) = ?c8"
    by (simp add: middlewareMetricsInc_def sampleConfig_def)
  ultimately have s1: "serve sampleFileServer (?c7, [?a, ?b]) (?c8, [?a])"
    by simp
  have "serve sampleFileServer (?c8, [?a])
      (snd (middlewareMetricsInc sampleFileServer ?c8 ([?a] ! 0)),
       take 0 [?a] @ drop (Suc 0) [?a])"
    by (rule serve.step) simp
  moreover have "snd (middlewareMetricsInc sampleFileServer ?c8 ([?a] ! 0)) = ?c9"
    by (simp add: middlewareMetricsInc_def sampleConfig_def)
  ultimately have s2: "serve sampleFileServer (?c8, [?a]) (?c9, [])"
    by simp
  from s1 s2 have run: "rtranclp (serve sampleFileServer) (?c7, [?a, ?b]) (?c9, [])"
    by (rule converse_rtranclp_into_rtranclp [OF _ r_into_rtranclp])
  have small: "sint (fileserverHits ?c7) + int (length [?a, ?b]) \<le> 2147483647"
    by (simp add: sampleConfig_def)
  from hit_counter_counts_every_request [OF run] small
  have "sint (fileserverHits ?c9) = sint (fileserverHits ?c7) + int (length [?a, ?b])"
    by blast
  with run small show ?thesis by blast
qed

end
